theory Spec2Isabelle
  imports Main "HOL-Library.Multiset"
begin

section \<open>Python values the module works with\<close>

text \<open>
  The exceptions that can travel through \<^verbatim>\<open>_concurrent.py\<close>. Python's
  \<^verbatim>\<open>except Exception\<close> catches the instances of \<^verbatim>\<open>Exception\<close>;
  \<^verbatim>\<open>KeyboardInterrupt\<close> and \<^verbatim>\<open>SystemExit\<close> derive from
  \<^verbatim>\<open>BaseException\<close> only and pass through such a clause.
  \<^verbatim>\<open>StopIteration\<close> is an \<^verbatim>\<open>Exception\<close>.
\<close>

datatype exn =
    StopIteration
  | KeyboardInterrupt
  | SystemExit
  | InputFileError string
  | AttributeError
  | OtherException string

fun is_Exception :: "exn \<Rightarrow> bool" where
  "is_Exception KeyboardInterrupt = False"
| "is_Exception SystemExit = False"
| "is_Exception _ = True"

text \<open>
  A parameter annotated \<^verbatim>\<open>Optional[Callable]\<close>: either \<^verbatim>\<open>None\<close> or an
  object with a truth value and a behaviour when called. Functions, lambdas and bound
  methods are always true; the source tests such parameters with \<^verbatim>\<open>if x:\<close> and
  \<^verbatim>\<open>if not x:\<close>, so the truth value is what decides.
\<close>

datatype 'f optional_callable = PyNone | PyCallable bool 'f

fun truthy :: "'f optional_callable \<Rightarrow> bool" where
  "truthy PyNone = False"
| "truthy (PyCallable b f) = b"

section \<open>The log listener\<close>

record log_record =
  rec_name :: string
  rec_level :: int
  rec_msg :: string

text \<open>
  What one call of \<^verbatim>\<open>q.get()\<close> hands to the listener: the value
  \<^verbatim>\<open>None\<close>, a log record, some other object (it has no attribute
  \<^verbatim>\<open>name\<close>), or an exception raised by the call itself.
\<close>

datatype queue_get =
    GetNone
  | GetRecord log_record
  | GetOther
  | GetRaises exn

datatype listener_event =
    QGet
  | Handle log_record
  | LoggingProblem exn

datatype listener_status =
    Stopped
  | Blocked
  | Died exn

text \<open>
  One pass through the \<^verbatim>\<open>try\<close> body for a value that is not \<^verbatim>\<open>None\<close>:
  \<^verbatim>\<open>logging.getLogger(record.name)\<close> followed by \<^verbatim>\<open>logger.handle(record)\<close>.
  The argument \<open>sink\<close> is the logging configuration of the main process: \<open>sink r\<close>
  is the exception that handling \<open>r\<close> raises, if any.
\<close>

fun process_item :: "(log_record \<Rightarrow> exn option) \<Rightarrow> queue_get \<Rightarrow> listener_event list \<times> exn option" where
  "process_item sink (GetRaises e) = ([], Some e)"
| "process_item sink GetOther = ([], Some AttributeError)"
| "process_item sink (GetRecord r) = ([Handle r], sink r)"
| "process_item sink GetNone = ([], None)"

text \<open>
  \<^verbatim>\<open>log_listener(q)\<close>. The second argument lists what the successive calls of
  \<^verbatim>\<open>q.get()\<close> return; when it is used up the next call blocks for ever, which is
  the status \<open>Blocked\<close>. \<open>Stopped\<close> is the \<^verbatim>\<open>break\<close>, and \<open>Died e\<close>
  an exception that \<^verbatim>\<open>except Exception\<close> does not catch and that ends the
  thread. The result also lists what the listener did, in order.
\<close>

fun log_listener :: "(log_record \<Rightarrow> exn option) \<Rightarrow> queue_get list \<Rightarrow> listener_event list \<times> listener_status" where
  "log_listener sink [] = ([], Blocked)"
| "log_listener sink (GetNone # rest) = ([QGet], Stopped)"
| "log_listener sink (g # rest) =
     (case process_item sink g of
        (evs, None) \<Rightarrow>
          (case log_listener sink rest of (evs', st) \<Rightarrow> (QGet # evs @ evs', st))
      | (evs, Some e) \<Rightarrow>
          if is_Exception e
          then (case log_listener sink rest of
                  (evs', st) \<Rightarrow> (QGet # evs @ LoggingProblem e # evs', st))
          else (QGet # evs, Died e))"

section \<open>Worker initialisation\<close>

datatype signum = SIGINT | SIGBUS

text \<open>
  The disposition of a signal: the default action, ignored, or a Python handler, which
  is a function of the signal number that returns or raises.
\<close>

datatype disposition =
    SIG_DFL
  | SIG_IGN
  | Handler "signum \<Rightarrow> exn + unit"

datatype 'q log_handler = QueueHandler 'q | OtherHandler string

text \<open>
  The part of a worker's state that the initialisers touch: the signal dispositions of
  its process, the signals blocked in its thread, and the level and handlers of the root
  logger it sees.
\<close>

record 'q worker =
  sig_disp :: "signum \<Rightarrow> disposition"
  sig_blocked :: "signum set"
  root_level :: int
  root_handlers :: "'q log_handler list"

type_synonym 'q user_init = "'q worker \<Rightarrow> exn + 'q worker"

definition process_sigbus :: "signum \<Rightarrow> exn + unit" where
  "process_sigbus args = Inl (InputFileError ''A worker process lost access to an input file'')"

definition signal_signal :: "signum \<Rightarrow> disposition \<Rightarrow> 'q worker \<Rightarrow> 'q worker" where
  "signal_signal s d w = w\<lparr>sig_disp := (sig_disp w)(s := d)\<rparr>"

definition pthread_sigmask_block :: "signum set \<Rightarrow> 'q worker \<Rightarrow> 'q worker" where
  "pthread_sigmask_block ss w = w\<lparr>sig_blocked := sig_blocked w \<union> ss\<rparr>"

definition addHandler :: "'q log_handler \<Rightarrow> 'q worker \<Rightarrow> 'q worker" where
  "addHandler h w =
     (if h \<in> set (root_handlers w) then w
      else w\<lparr>root_handlers := root_handlers w @ [h]\<rparr>)"

text \<open>
  \<^verbatim>\<open>process_init(q, user_init, loglevel)\<close>. The first argument is
  \<^verbatim>\<open>hasattr(signal, 'SIGBUS')\<close>, a fact of the platform.
\<close>

definition process_init :: "bool \<Rightarrow> 'q \<Rightarrow> 'q user_init \<Rightarrow> int \<Rightarrow> 'q worker \<Rightarrow> exn + 'q worker" where
  "process_init has_sigbus q user_init loglevel w =
     (let w1 = signal_signal SIGINT SIG_IGN w;
          w2 = (if has_sigbus then signal_signal SIGBUS (Handler process_sigbus) w1 else w1);
          h = QueueHandler q;
          w3 = w2\<lparr>root_level := loglevel\<rparr>;
          w4 = w3\<lparr>root_handlers := []\<rparr>;
          w5 = addHandler h w4
      in user_init w5)"

text \<open>
  \<^verbatim>\<open>thread_init(_queue, user_init, _loglevel)\<close>: the queue and the level are
  accepted and not used.
\<close>

definition thread_init :: "bool \<Rightarrow> 'q \<Rightarrow> 'q user_init \<Rightarrow> int \<Rightarrow> 'q worker \<Rightarrow> exn + 'q worker" where
  "thread_init has_sigbus unused_queue user_init unused_loglevel w =
     (let w1 = (if has_sigbus then pthread_sigmask_block {SIGBUS} w else w)
      in user_init w1)"

text \<open>
  What the runtime does when a signal reaches a thread of the worker: nothing while the
  thread blocks the signal or the disposition is \<^verbatim>\<open>SIG_IGN\<close>, the default action of
  the operating system under \<^verbatim>\<open>SIG_DFL\<close>, and otherwise a call of the handler, whose
  exception is raised in the interrupted code.
\<close>

datatype delivery = NotDelivered | Ignored | DefaultAction | HandlerReturned | RaisedInWorker exn

definition deliver :: "'q worker \<Rightarrow> signum \<Rightarrow> delivery" where
  "deliver w s =
     (if s \<in> sig_blocked w then NotDelivered
      else case sig_disp w s of
             SIG_IGN \<Rightarrow> Ignored
           | SIG_DFL \<Rightarrow> DefaultAction
           | Handler h \<Rightarrow> (case h s of Inl e \<Rightarrow> RaisedInWorker e | Inr u \<Rightarrow> HandlerReturned))"

section \<open>The pool dispatcher\<close>

text \<open>What a task does with one argument: it returns a result or raises.\<close>

datatype 'r task_outcome = Returns 'r | Raises exn

text \<open>
  \<^verbatim>\<open>pool.imap_unordered(task, task_arguments)\<close> yields one outcome per argument, in
  the order in which the workers finish. That order is the pool's choice, given here as a
  list of numbers: each number picks, among the arguments still pending, the one that
  finishes next; when the list is used up the rest finishes in submission order. Every
  list is a valid choice and every completion order has a list.
\<close>

function completion_order :: "'a list \<Rightarrow> nat list \<Rightarrow> 'a list" where
  "completion_order [] sched = []"
| "completion_order (a # as) [] = a # as"
| "completion_order (a # as) (k # ks) =
     (let i = k mod length (a # as)
      in (a # as) ! i # completion_order (take i (a # as) @ drop (Suc i) (a # as)) ks)"
  by pat_completeness auto
termination
  by (relation "measure (\<lambda>(pending, sched). length pending)") auto

definition imap_unordered :: "('a \<Rightarrow> 'r task_outcome) \<Rightarrow> 'a list \<Rightarrow> nat list \<Rightarrow> 'r task_outcome list" where
  "imap_unordered task task_arguments sched = map task (completion_order task_arguments sched)"

text \<open>
  A \<^verbatim>\<open>KeyboardInterrupt\<close> reaches the main thread while it waits in
  \<^verbatim>\<open>results.next()\<close>: \<open>Some k\<close> says that \<open>k\<close> calls complete before it (fewer
  when the iterator ends sooner, and then the interrupt arrives in the last call).
\<close>

fun interrupted :: "nat option \<Rightarrow> 'r task_outcome list \<Rightarrow> 'r task_outcome list" where
  "interrupted None outs = outs"
| "interrupted (Some k) outs = take k outs @ [Raises KeyboardInterrupt]"

datatype 'r event =
    ListenerStart
  | PbarOpen
  | PoolCreate bool nat
  | NextResult 'r
  | TaskFinished 'r
  | PbarUpdate
  | PoolTerminate
  | PutSentinel
  | PoolClose
  | PoolJoin
  | PbarClose
  | ListenerJoin

text \<open>
  The \<^verbatim>\<open>while True\<close> loop of \<^verbatim>\<open>exec_progress_pool\<close> over the outcomes of the
  successive \<^verbatim>\<open>results.next()\<close> calls; the end of the list is the iterator's own
  \<^verbatim>\<open>StopIteration\<close>. The completion callback returns \<open>None\<close> or the exception
  it raises. The result is what the loop did and the exception that leaves it, if any:
  \<^verbatim>\<open>except StopIteration: break\<close> encloses both the \<^verbatim>\<open>next()\<close> call and the
  callback.
\<close>

fun result_loop :: "('r \<Rightarrow> exn option) optional_callable \<Rightarrow> 'r task_outcome list \<Rightarrow> 'r event list \<times> exn option" where
  "result_loop task_finished [] = ([], None)"
| "result_loop task_finished (Raises e # rest) =
     ([], if e = StopIteration then None else Some e)"
| "result_loop task_finished (Returns r # rest) =
     (case task_finished of
        PyCallable True f \<Rightarrow>
          (case f r of
             Some e \<Rightarrow> ([NextResult r, TaskFinished r], if e = StopIteration then None else Some e)
           | None \<Rightarrow>
               (case result_loop task_finished rest of
                  (evs, x) \<Rightarrow> (NextResult r # TaskFinished r # evs, x)))
      | _ \<Rightarrow>
          (case result_loop task_finished rest of
             (evs, x) \<Rightarrow> (NextResult r # PbarUpdate # evs, x)))"

text \<open>
  What the caller cannot pass in: the process environment (\<^verbatim>\<open>os.environ\<close>), the
  level of the dispatcher's root logger, the order in which the pool completes the tasks,
  and whether and when the user interrupts.
\<close>

record env =
  environ :: "string \<rightharpoonup> string"
  dispatcher_level :: int
  completion :: "nat list"
  interrupt_at :: "nat option"

definition environ_get :: "(string \<rightharpoonup> string) \<Rightarrow> string \<Rightarrow> string \<Rightarrow> string" where
  "environ_get m k d = (case m k of None \<Rightarrow> d | Some v \<Rightarrow> v)"

text \<open>What the successive calls of \<^verbatim>\<open>results.next()\<close> do in a given environment.\<close>

definition next_outcomes :: "env \<Rightarrow> ('a \<Rightarrow> 'r task_outcome) \<Rightarrow> 'a list \<Rightarrow> 'r task_outcome list" where
  "next_outcomes e task task_arguments =
     interrupted (interrupt_at e) (imap_unordered task task_arguments (completion e))"

datatype outcome = Returned | Raised exn

datatype log_queue = QueueQueue | MultiprocessingQueue

definition noop :: "log_queue user_init" where
  "noop w = Inr w"

text \<open>
  The \<^verbatim>\<open>except\<close> clauses around the loop: what is done with the pool for an
  exception that left the loop.
\<close>

definition on_exception :: "env \<Rightarrow> exn \<Rightarrow> 'r event list" where
  "on_exception e x =
     (if x = KeyboardInterrupt then [PoolTerminate]
      else if is_Exception x then
        (if environ_get (environ e) ''PYTEST_CURRENT_TEST'' '''' = '''' then [PoolTerminate] else [])
      else [])"

record ('k, 'r) run =
  trace :: "'r event list"
  outcome :: outcome
  pbar_kwargs :: 'k
  pool_initializer :: "bool \<Rightarrow> log_queue \<Rightarrow> log_queue user_init \<Rightarrow> int \<Rightarrow> log_queue worker \<Rightarrow> exn + log_queue worker"
  pool_initargs :: "log_queue \<times> log_queue user_init \<times> int"

text \<open>
  \<^verbatim>\<open>exec_progress_pool\<close>, for a call in which the pool is constructed, its workers
  start and the outcome of every task reaches the dispatcher; \<open>exec_progress_pool_call\<close>
  below is the call without these conditions. The result holds the calls made on the
  listener thread, the progress bar, the queue and the pool, in order; whether the call
  returned or raised; the arguments the progress bar was opened with; and the initialiser
  and arguments the pool was created with.
\<close>

definition exec_progress_pool ::
  "env \<Rightarrow> bool \<Rightarrow> nat \<Rightarrow> 'k \<Rightarrow> (log_queue user_init) optional_callable \<Rightarrow> ('a \<Rightarrow> 'r task_outcome) \<Rightarrow> 'a list
     \<Rightarrow> ('r \<Rightarrow> exn option) optional_callable \<Rightarrow> ('k, 'r) run" where
  "exec_progress_pool e use_threads max_workers tqdm_kwargs task_initializer task task_arguments task_finished =
     (let (log_q, initializer) =
            (if use_threads then (QueueQueue, thread_init)
             else (MultiprocessingQueue, process_init));
          task_init = (case task_initializer of PyCallable True f \<Rightarrow> f | _ \<Rightarrow> noop);
          (loop_events, exc) = result_loop task_finished (next_outcomes e task task_arguments);
          handler_events = (case exc of None \<Rightarrow> [] | Some x \<Rightarrow> on_exception e x);
          finally_events = [PutSentinel, PoolClose, PoolJoin]
      in \<lparr> trace = [ListenerStart, PbarOpen, PoolCreate use_threads max_workers]
                     @ loop_events @ handler_events @ finally_events @ [PbarClose]
                     @ (case exc of None \<Rightarrow> [ListenerJoin] | Some x \<Rightarrow> []),
           outcome = (case exc of None \<Rightarrow> Returned | Some x \<Rightarrow> Raised x),
           pbar_kwargs = tqdm_kwargs,
           pool_initializer = initializer,
           pool_initargs = (log_q, task_init, dispatcher_level e) \<rparr>)"

text \<open>
  A pool that has been constructed starts each worker by calling
  \<^verbatim>\<open>initializer(*initargs)\<close> in it, before the worker takes its first task. Whether the
  constructor gets that far is \<open>Pool_new\<close> below.
\<close>

definition start_worker :: "bool \<Rightarrow> ('k, 'r) run \<Rightarrow> log_queue worker \<Rightarrow> exn + log_queue worker" where
  "start_worker has_sigbus r w =
     (case pool_initargs r of (q, user_init, loglevel) \<Rightarrow> pool_initializer r has_sigbus q user_init loglevel w)"

section \<open>The whole call, with the pool's construction and the workers' start\<close>

text \<open>
  What the platform adds to a call: whether the \<^verbatim>\<open>signal\<close> module defines
  \<^verbatim>\<open>SIGBUS\<close>, the start method of \<^verbatim>\<open>multiprocessing\<close> (fork, or spawn and forkserver,
  which pickle what a new process is given), and the state in which a worker begins.
\<close>

datatype start_method = Fork | Spawn | Forkserver

record platform =
  sigbus_defined :: bool
  start_method :: start_method
  fresh_worker :: "log_queue worker"

text \<open>
  \<^verbatim>\<open>pool_class(processes=max_workers, initializer=..., initargs=...)\<close>, the exception it
  raises, if any. Both pool classes refuse fewer than one worker with a
  \<^verbatim>\<open>ValueError\<close>. A process pool under spawn or forkserver pickles \<^verbatim>\<open>initargs\<close> for
  its first worker, and \<^verbatim>\<open>_noop\<close>, which \<^verbatim>\<open>exec_progress_pool\<close> defines inside its own
  body and passes when the caller gave no callback, cannot be pickled: the constructor
  raises \<^verbatim>\<open>AttributeError\<close> (can't pickle local object). A callback the caller passes for
  a process pool is taken to be picklable.
\<close>

definition Pool_new :: "platform \<Rightarrow> bool \<Rightarrow> nat \<Rightarrow> (log_queue user_init) optional_callable \<Rightarrow> exn option" where
  "Pool_new p use_threads max_workers task_initializer =
     (if max_workers < 1
      then Some (OtherException ''ValueError: Number of processes must be at least 1'')
      else if \<not> use_threads \<and> start_method p \<noteq> Fork \<and> \<not> truthy task_initializer
      then Some AttributeError
      else None)"

text \<open>
  Whether the workers of a created pool get through \<^verbatim>\<open>initializer(*initargs)\<close>. A
  worker in which the initialiser raises ends at once and the pool replaces it by another
  that fares the same, so no task is ever run.
\<close>

definition workers_start :: "platform \<Rightarrow> ('k, 'r) run \<Rightarrow> bool" where
  "workers_start p r =
     (case start_worker (sigbus_defined p) r (fresh_worker p) of Inl x \<Rightarrow> False | Inr w \<Rightarrow> True)"

text \<open>
  A worker sends the dispatcher what its task returns and any \<^verbatim>\<open>Exception\<close> it raises.
  Another exception (\<^verbatim>\<open>SystemExit\<close>, \<^verbatim>\<open>KeyboardInterrupt\<close>) ends the worker, and the
  outcome of that task never arrives.
\<close>

fun deliverable :: "'r task_outcome \<Rightarrow> bool" where
  "deliverable (Returns r) = True"
| "deliverable (Raises x) = is_Exception x"

text \<open>
  What a call of \<^verbatim>\<open>results.next()\<close> does: it gives the outcome of a task (or raises the
  interrupt), or it waits for ever.
\<close>

datatype 'r next_call = Gives "'r task_outcome" | Waits

text \<open>
  The successive calls of \<^verbatim>\<open>results.next()\<close> for a created pool. The outcomes that
  arrive come in completion order; while one is outstanding that never arrives, the call
  after the last arrival waits for ever, unless the user interrupts.
\<close>

definition next_calls :: "bool \<Rightarrow> env \<Rightarrow> ('a \<Rightarrow> 'r task_outcome) \<Rightarrow> 'a list \<Rightarrow> 'r next_call list" where
  "next_calls started e task task_arguments =
     (let outs = imap_unordered task task_arguments (completion e);
          arriving = (if started then filter deliverable outs else []);
          outstanding = (length arriving < length outs)
      in map Gives (interrupted (interrupt_at e) arriving)
           @ (if interrupt_at e = None \<and> outstanding then [Waits] else []))"

datatype loop_end = Ended | Escaped exn | Waiting

text \<open>
  The \<^verbatim>\<open>while True\<close> loop again, now over calls that may wait for ever: as
  \<open>result_loop\<close>, with the third way for the loop to go on, never leaving
  \<^verbatim>\<open>results.next()\<close>.
\<close>

fun call_loop :: "('r \<Rightarrow> exn option) optional_callable \<Rightarrow> 'r next_call list \<Rightarrow> 'r event list \<times> loop_end" where
  "call_loop task_finished [] = ([], Ended)"
| "call_loop task_finished (Waits # rest) = ([], Waiting)"
| "call_loop task_finished (Gives (Raises x) # rest) =
     ([], if x = StopIteration then Ended else Escaped x)"
| "call_loop task_finished (Gives (Returns r) # rest) =
     (case task_finished of
        PyCallable True f \<Rightarrow>
          (case f r of
             Some x \<Rightarrow> ([NextResult r, TaskFinished r], if x = StopIteration then Ended else Escaped x)
           | None \<Rightarrow>
               (case call_loop task_finished rest of
                  (evs, fin) \<Rightarrow> (NextResult r # TaskFinished r # evs, fin)))
      | _ \<Rightarrow>
          (case call_loop task_finished rest of
             (evs, fin) \<Rightarrow> (NextResult r # PbarUpdate # evs, fin)))"

datatype call_end = Leaves outcome | Hangs

text \<open>
  The whole of \<^verbatim>\<open>exec_progress_pool\<close>: the calls it makes, in order, and how it ends.
  When the pool's constructor raises, the exception leaves through the \<^verbatim>\<open>with\<close>
  statement only, since the \<^verbatim>\<open>try\<close> has not been entered: the progress bar is closed
  and nothing else is done. When the loop waits for ever, so does the call. Otherwise the
  \<^verbatim>\<open>except\<close> and \<^verbatim>\<open>finally\<close> clauses run as in \<open>exec_progress_pool\<close> above, with
  which this definition agrees whenever the pool is constructed, the workers start and
  every outcome arrives.
\<close>

definition exec_progress_pool_call ::
  "platform \<Rightarrow> env \<Rightarrow> bool \<Rightarrow> nat \<Rightarrow> 'k \<Rightarrow> (log_queue user_init) optional_callable \<Rightarrow> ('a \<Rightarrow> 'r task_outcome) \<Rightarrow> 'a list
     \<Rightarrow> ('r \<Rightarrow> exn option) optional_callable \<Rightarrow> 'r event list \<times> call_end" where
  "exec_progress_pool_call p e use_threads max_workers tqdm_kwargs task_initializer task task_arguments task_finished =
     (case Pool_new p use_threads max_workers task_initializer of
        Some x \<Rightarrow> ([ListenerStart, PbarOpen, PbarClose], Leaves (Raised x))
      | None \<Rightarrow>
          (let started = workers_start p
                 (exec_progress_pool e use_threads max_workers tqdm_kwargs task_initializer
                    task task_arguments task_finished);
               setup = [ListenerStart, PbarOpen, PoolCreate use_threads max_workers];
               finally_events = [PutSentinel, PoolClose, PoolJoin]
           in case call_loop task_finished (next_calls started e task task_arguments) of
                (loop_events, Waiting) \<Rightarrow> (setup @ loop_events, Hangs)
              | (loop_events, Ended) \<Rightarrow>
                  (setup @ loop_events @ finally_events @ [PbarClose, ListenerJoin], Leaves Returned)
              | (loop_events, Escaped x) \<Rightarrow>
                  (setup @ loop_events @ on_exception e x @ finally_events @ [PbarClose],
                   Leaves (Raised x))))"

section \<open>Vocabulary for the properties\<close>


text \<open>The values read before the first sentinel.\<close>

definition before_sentinel :: "queue_get list \<Rightarrow> queue_get list" where
  "before_sentinel q = takeWhile (\<lambda>g. g \<noteq> GetNone) q"

text \<open>What the dispatcher does for one result when nothing raises.\<close>

definition result_events :: "('r \<Rightarrow> exn option) optional_callable \<Rightarrow> 'r \<Rightarrow> 'r event list" where
  "result_events task_finished r =
     [NextResult r, if truthy task_finished then TaskFinished r else PbarUpdate]"

text \<open>The completion callback does not raise on the result \<open>r\<close>.\<close>

fun callback_ok :: "('r \<Rightarrow> exn option) optional_callable \<Rightarrow> 'r \<Rightarrow> bool" where
  "callback_ok (PyCallable True f) r = (f r = None)"
| "callback_ok task_finished r = True"

text \<open>
  The results a trace shows as received, the results it shows as passed to the
  completion callback, the number of plain progress updates, the number of
  \<^verbatim>\<open>q.get()\<close> calls of the listener and the number of sentinels put on the queue.
\<close>

fun observed :: "'r event list \<Rightarrow> 'r list" where
  "observed [] = []"
| "observed (NextResult r # evs) = r # observed evs"
| "observed (ev # evs) = observed evs"

fun finished :: "'r event list \<Rightarrow> 'r list" where
  "finished [] = []"
| "finished (TaskFinished r # evs) = r # finished evs"
| "finished (ev # evs) = finished evs"

definition ticks :: "'r event list \<Rightarrow> nat" where
  "ticks evs = length (filter (\<lambda>ev. ev = PbarUpdate) evs)"

definition reads :: "listener_event list \<Rightarrow> nat" where
  "reads evs = length (filter (\<lambda>ev. ev = QGet) evs)"

definition sentinels :: "'r event list \<Rightarrow> nat" where
  "sentinels evs = length (filter (\<lambda>ev. ev = PutSentinel) evs)"

text \<open>The events of the result loop: nothing in them touches the pool or the queue.\<close>

fun loop_event :: "'r event \<Rightarrow> bool" where
  "loop_event (NextResult r) = True"
| "loop_event (TaskFinished r) = True"
| "loop_event PbarUpdate = True"
| "loop_event ev = False"

section \<open>The listener: auxiliary facts\<close>

lemma log_listener_cut:
  "log_listener sink (pre @ GetNone # post) = log_listener sink (pre @ [GetNone])"
proof (induction pre)
  case Nil
  show ?case by simp
next
  case (Cons g pre)
  then show ?case
    by (cases g) (simp_all split: option.splits prod.splits)
qed


lemma handled_before_sentinel:
  "Handle r \<in> set (fst (log_listener sink q)) \<Longrightarrow> GetRecord r \<in> set (before_sentinel q)"
proof (induction q)
  case Nil
  then show ?case by simp
next
  case (Cons g q)
  then show ?case
    by (cases g) (auto simp: before_sentinel_def split: option.splits prod.splits if_splits)
qed

lemma reads_bound:
  "length (filter (\<lambda>ev. ev = QGet) (fst (log_listener sink q))) \<le> Suc (length (before_sentinel q))"
proof (induction q)
  case Nil
  then show ?case by simp
next
  case (Cons g q)
  then show ?case
    by (cases g) (auto simp: before_sentinel_def split: option.splits prod.splits if_splits)
qed

section \<open>The dispatcher: auxiliary facts\<close>

lemma mset_completion_order: "mset (completion_order xs sched) = mset xs"
proof (induction xs sched rule: completion_order.induct)
  case (1 sched)
  show ?case by simp
next
  case (2 a as)
  show ?case by simp
next
  case (3 a as k ks)
  define i where "i = k mod length (a # as)"
  have i: "i < length (a # as)" by (simp add: i_def)
  have split: "a # as = take i (a # as) @ (a # as) ! i # drop (Suc i) (a # as)"
    using i by (rule id_take_nth_drop)
  have "mset (completion_order (a # as) (k # ks))
      = {#(a # as) ! i#} + mset (completion_order (take i (a # as) @ drop (Suc i) (a # as)) ks)"
    by (simp add: i_def Let_def)
  also have "\<dots> = {#(a # as) ! i#} + mset (take i (a # as) @ drop (Suc i) (a # as))"
    using "3.IH" [of i] by (simp add: i_def)
  also have "\<dots> = mset (take i (a # as) @ (a # as) ! i # drop (Suc i) (a # as))"
    by simp
  also have "\<dots> = mset (a # as)"
    using split by simp
  finally show ?case .
qed

lemma length_completion_order: "length (completion_order xs sched) = length xs"
  using mset_completion_order [of xs sched] by (metis size_mset)

lemma loop_events_only: "\<forall>ev\<in>set (fst (result_loop tf outs)). loop_event ev"
  by (induction tf outs rule: result_loop.induct)
     (auto split: optional_callable.splits bool.splits option.splits prod.splits)

lemma result_loop_returns:
  "\<forall>r\<in>set rs. callback_ok tf r \<Longrightarrow>
     result_loop tf (map Returns rs @ outs) =
       (concat (map (result_events tf) rs) @ fst (result_loop tf outs), snd (result_loop tf outs))"
proof (induction rs)
  case Nil
  show ?case by simp
next
  case (Cons r rs)
  then show ?case
    by (cases tf) (auto simp: result_events_def split: bool.splits option.splits)
qed

lemma exec_unfold:
  "exec_progress_pool e ut mw kw ti task args tf =
     (case result_loop tf (next_outcomes e task args) of
        (loop_events, exc) \<Rightarrow>
          \<lparr> trace = [ListenerStart, PbarOpen, PoolCreate ut mw] @ loop_events
                     @ (case exc of None \<Rightarrow> [] | Some x \<Rightarrow> on_exception e x)
                     @ [PutSentinel, PoolClose, PoolJoin] @ [PbarClose]
                     @ (case exc of None \<Rightarrow> [ListenerJoin] | Some x \<Rightarrow> []),
            outcome = (case exc of None \<Rightarrow> Returned | Some x \<Rightarrow> Raised x),
            pbar_kwargs = kw,
            pool_initializer = (if ut then thread_init else process_init),
            pool_initargs = (if ut then QueueQueue else MultiprocessingQueue,
                             case ti of PyCallable True f \<Rightarrow> f | _ \<Rightarrow> noop, dispatcher_level e) \<rparr>)"
  by (simp add: exec_progress_pool_def Let_def split: prod.splits)

lemma exec_trace:
  "trace (exec_progress_pool e ut mw kw ti task args tf) =
     [ListenerStart, PbarOpen, PoolCreate ut mw]
       @ fst (result_loop tf (next_outcomes e task args))
       @ (case snd (result_loop tf (next_outcomes e task args)) of None \<Rightarrow> [] | Some x \<Rightarrow> on_exception e x)
       @ [PutSentinel, PoolClose, PoolJoin, PbarClose]
       @ (case snd (result_loop tf (next_outcomes e task args)) of None \<Rightarrow> [ListenerJoin] | Some x \<Rightarrow> [])"
  by (simp add: exec_unfold case_prod_beta)

lemma exec_outcome:
  "outcome (exec_progress_pool e ut mw kw ti task args tf) =
     (case snd (result_loop tf (next_outcomes e task args)) of None \<Rightarrow> Returned | Some x \<Rightarrow> Raised x)"
  by (simp add: exec_unfold case_prod_beta)

lemma exec_initializer:
  "pool_initializer (exec_progress_pool e ut mw kw ti task args tf) = (if ut then thread_init else process_init)"
  by (simp add: exec_unfold case_prod_beta)

lemma exec_initargs:
  "pool_initargs (exec_progress_pool e ut mw kw ti task args tf) =
     (if ut then QueueQueue else MultiprocessingQueue,
      case ti of PyCallable True f \<Rightarrow> f | _ \<Rightarrow> noop, dispatcher_level e)"
  by (simp add: exec_unfold case_prod_beta)

lemma observed_append: "observed (xs @ ys) = observed xs @ observed ys"
  by (induction xs rule: observed.induct) simp_all

lemma finished_append: "finished (xs @ ys) = finished xs @ finished ys"
  by (induction xs rule: finished.induct) simp_all

lemma ticks_append: "ticks (xs @ ys) = ticks xs + ticks ys"
  by (simp add: ticks_def)

lemma observed_result_events: "observed (concat (map (result_events tf) rs)) = rs"
  by (induction rs) (auto simp: result_events_def)

lemma finished_result_events:
  "finished (concat (map (result_events tf) rs)) = (if truthy tf then rs else [])"
  by (induction rs) (auto simp: result_events_def)

lemma ticks_result_events:
  "ticks (concat (map (result_events tf) rs)) = (if truthy tf then 0 else length rs)"
  by (induction rs) (auto simp: result_events_def ticks_def)

lemma exec_first_raise:
  assumes "next_outcomes e task args = map Returns rs @ Raises x # rest"
      and "\<forall>r\<in>set rs. callback_ok tf r"
      and "x \<noteq> StopIteration"
  shows "outcome (exec_progress_pool e ut mw kw ti task args tf) = Raised x"
    and "trace (exec_progress_pool e ut mw kw ti task args tf) =
           [ListenerStart, PbarOpen, PoolCreate ut mw] @ concat (map (result_events tf) rs)
             @ on_exception e x @ [PutSentinel, PoolClose, PoolJoin, PbarClose]"
  using assms by (simp_all add: exec_outcome exec_trace result_loop_returns)

lemma exec_all_return:
  assumes "next_outcomes e task args = map Returns rs"
      and "\<forall>r\<in>set rs. callback_ok tf r"
  shows "outcome (exec_progress_pool e ut mw kw ti task args tf) = Returned"
    and "trace (exec_progress_pool e ut mw kw ti task args tf) =
           [ListenerStart, PbarOpen, PoolCreate ut mw] @ concat (map (result_events tf) rs)
             @ [PutSentinel, PoolClose, PoolJoin, PbarClose, ListenerJoin]"
  using assms result_loop_returns [of rs tf "[]"]
  by (simp_all add: exec_outcome exec_trace)

lemma prefix_clean:
  assumes l: "\<forall>ev\<in>set loop. loop_event ev"
    and h: "handler = [] \<or> handler = [PoolTerminate]"
  shows "PutSentinel \<notin> set ([ListenerStart, PbarOpen, PoolCreate ut mw] @ loop @ handler)
       \<and> PoolClose \<notin> set ([ListenerStart, PbarOpen, PoolCreate ut mw] @ loop @ handler)
       \<and> PoolJoin \<notin> set ([ListenerStart, PbarOpen, PoolCreate ut mw] @ loop @ handler)
       \<and> ListenerJoin \<notin> set ([ListenerStart, PbarOpen, PoolCreate ut mw] @ loop @ handler)"
  using l h by auto

section \<open>Teardown\<close>

text \<open>
  Claim C1, as amended. On every exit path of \<^verbatim>\<open>exec_progress_pool\<close> (normal
  return, \<^verbatim>\<open>KeyboardInterrupt\<close>, any other exception) the sentinel is put on the log
  queue, the pool is closed and the pool is joined, in that order and once each; the
  listener thread is joined exactly when the call returns normally, and not when it leaves
  with an exception.
\<close>

theorem teardown_on_every_exit:
  "\<exists>pre. trace (exec_progress_pool e ut mw kw ti task args (tf :: ('r \<Rightarrow> exn option) optional_callable)) =
           pre @ [PutSentinel, PoolClose, PoolJoin, PbarClose]
             @ (if outcome (exec_progress_pool e ut mw kw ti task args tf) = Returned
                then [ListenerJoin] else [])
         \<and> PutSentinel \<notin> set pre \<and> PoolClose \<notin> set pre \<and> PoolJoin \<notin> set pre
         \<and> ListenerJoin \<notin> set pre"
proof -
  define loop :: "'r event list" where "loop = fst (result_loop tf (next_outcomes e task args))"
  define handler :: "'r event list" where
    "handler = (case snd (result_loop tf (next_outcomes e task args) :: 'r event list \<times> exn option) of None \<Rightarrow> [] | Some x \<Rightarrow> on_exception e x)"
  define pre where "pre = [ListenerStart, PbarOpen, PoolCreate ut mw] @ loop @ handler"
  have t: "trace (exec_progress_pool e ut mw kw ti task args tf) =
             pre @ [PutSentinel, PoolClose, PoolJoin, PbarClose]
               @ (if outcome (exec_progress_pool e ut mw kw ti task args tf) = Returned
                  then [ListenerJoin] else [])"
    unfolding pre_def loop_def handler_def
    by (simp add: exec_trace exec_outcome split: option.splits)
  have l: "\<forall>ev\<in>set loop. loop_event ev"
    unfolding loop_def by (rule loop_events_only)
  have h: "handler = [] \<or> handler = [PoolTerminate]"
    unfolding handler_def by (simp add: on_exception_def split: option.splits)
  have n: "PutSentinel \<notin> set pre \<and> PoolClose \<notin> set pre \<and> PoolJoin \<notin> set pre
         \<and> ListenerJoin \<notin> set pre"
    unfolding pre_def using l h by (rule prefix_clean)
  show ?thesis
    by (rule exI [of _ pre]) (rule conjI [OF t n])
qed

theorem teardown_on_every_exit_witness:
  "\<exists>pre. trace (exec_progress_pool \<lparr>environ = Map.empty, dispatcher_level = 20, completion = [1], interrupt_at = None\<rparr>
                  False 2 () PyNone (\<lambda>a. if a = (2::nat) then Raises (OtherException ''boom'') else Returns a) [1, 2, 3] PyNone) =
           pre @ [PutSentinel, PoolClose, PoolJoin, PbarClose]
             @ (if outcome (exec_progress_pool \<lparr>environ = Map.empty, dispatcher_level = 20, completion = [1], interrupt_at = None\<rparr>
                  False 2 () PyNone (\<lambda>a. if a = (2::nat) then Raises (OtherException ''boom'') else Returns a) [1, 2, 3] PyNone) = Returned
                then [ListenerJoin] else [])
         \<and> PutSentinel \<notin> set pre \<and> PoolClose \<notin> set pre \<and> PoolJoin \<notin> set pre
         \<and> ListenerJoin \<notin> set pre"
  by (rule teardown_on_every_exit)

text \<open>
  The claim as written also has the listener joined on the interrupt path. With two tasks
  submitted and the interrupt arriving in the first \<^verbatim>\<open>results.next()\<close>, the call
  leaves with \<^verbatim>\<open>KeyboardInterrupt\<close> and \<^verbatim>\<open>listener.join()\<close> is never reached.
\<close>

theorem listener_not_joined_on_interrupt:
  "outcome (exec_progress_pool \<lparr>environ = Map.empty, dispatcher_level = 20, completion = [], interrupt_at = Some 0\<rparr>
              False 2 () PyNone (\<lambda>a. Returns a) [1::nat, 2] PyNone) = Raised KeyboardInterrupt
   \<and> trace (exec_progress_pool \<lparr>environ = Map.empty, dispatcher_level = 20, completion = [], interrupt_at = Some 0\<rparr>
              False 2 () PyNone (\<lambda>a. Returns a) [1::nat, 2] PyNone)
       = [ListenerStart, PbarOpen, PoolCreate False 2, PoolTerminate, PutSentinel, PoolClose, PoolJoin, PbarClose]
   \<and> ListenerJoin \<notin> set (trace (exec_progress_pool \<lparr>environ = Map.empty, dispatcher_level = 20, completion = [], interrupt_at = Some 0\<rparr>
              False 2 () PyNone (\<lambda>a. Returns a) [1::nat, 2] PyNone))"
  by (simp add: exec_outcome exec_trace next_outcomes_def imap_unordered_def on_exception_def)

section \<open>The log listener and the sentinel\<close>

lemma before_sentinel_cut: "before_sentinel (pre @ GetNone # post) = before_sentinel pre"
  by (induction pre) (simp_all add: before_sentinel_def)

lemma before_sentinel_subset: "set (before_sentinel q) \<subseteq> set q"
  unfolding before_sentinel_def by (auto dest: set_takeWhileD)

lemma length_before_sentinel: "length (before_sentinel q) \<le> length q"
  unfolding before_sentinel_def by (rule length_takeWhile_le)

lemma no_sentinel_in_loop:
  "\<forall>ev\<in>set evs. loop_event ev \<Longrightarrow> filter (\<lambda>ev. ev = PutSentinel) evs = []"
  by (induction evs) auto

lemma exec_sentinels: "sentinels (trace (exec_progress_pool e ut mw kw ti task args tf)) = 1"
proof -
  have "filter (\<lambda>ev. ev = PutSentinel) (fst (result_loop tf (next_outcomes e task args))) = []"
    by (rule no_sentinel_in_loop) (rule loop_events_only)
  then show ?thesis
    by (simp add: sentinels_def exec_trace on_exception_def split: option.splits)
qed






text \<open>
  Claim C8. Each call of \<^verbatim>\<open>exec_progress_pool\<close> puts at most one sentinel on the
  log queue. Once the listener has read the sentinel it reads nothing more: what stands
  behind the sentinel in the queue does not change what the listener does, the number of
  reads is at most the number of values before the sentinel plus one, and every record
  the listener handles was put on the queue before the sentinel.
\<close>

theorem single_sentinel_stops_reading:
  "sentinels (trace (exec_progress_pool e ut mw kw ti task args tf)) \<le> 1
   \<and> log_listener sink (pre @ GetNone # post) = log_listener sink (pre @ [GetNone])
   \<and> reads (fst (log_listener sink (pre @ GetNone # post))) \<le> Suc (length pre)
   \<and> (\<forall>r. Handle r \<in> set (fst (log_listener sink (pre @ GetNone # post))) \<longrightarrow> GetRecord r \<in> set pre)"
proof -
  have a: "sentinels (trace (exec_progress_pool e ut mw kw ti task args tf)) \<le> 1"
    by (simp add: exec_sentinels)
  have b: "log_listener sink (pre @ GetNone # post) = log_listener sink (pre @ [GetNone])"
    by (rule log_listener_cut)
  have "reads (fst (log_listener sink (pre @ GetNone # post))) \<le> Suc (length (before_sentinel (pre @ GetNone # post)))"
    unfolding reads_def by (rule reads_bound)
  also have "\<dots> \<le> Suc (length pre)"
    using length_before_sentinel [of pre] by (simp add: before_sentinel_cut)
  finally have c: "reads (fst (log_listener sink (pre @ GetNone # post))) \<le> Suc (length pre)" .
  have d: "\<forall>r. Handle r \<in> set (fst (log_listener sink (pre @ GetNone # post))) \<longrightarrow> GetRecord r \<in> set pre"
  proof (intro allI impI)
    fix r
    assume "Handle r \<in> set (fst (log_listener sink (pre @ GetNone # post)))"
    then have "GetRecord r \<in> set (before_sentinel (pre @ GetNone # post))"
      by (rule handled_before_sentinel)
    then have "GetRecord r \<in> set (before_sentinel pre)"
      by (simp add: before_sentinel_cut)
    then show "GetRecord r \<in> set pre"
      using before_sentinel_subset [of pre] by blast
  qed
  from a b c d show ?thesis by (intro conjI)
qed

theorem single_sentinel_stops_reading_witness:
  "sentinels (trace (exec_progress_pool \<lparr>environ = Map.empty, dispatcher_level = 20, completion = [], interrupt_at = None\<rparr>
                       True 1 () PyNone (\<lambda>a. Returns a) [1::nat] PyNone)) \<le> 1
   \<and> log_listener (\<lambda>r. None)
        [GetRecord \<lparr>rec_name = ''ocrmypdf'', rec_level = 20, rec_msg = ''early''\<rparr>, GetNone,
         GetRecord \<lparr>rec_name = ''ocrmypdf'', rec_level = 20, rec_msg = ''late''\<rparr>]
       = ([QGet, Handle \<lparr>rec_name = ''ocrmypdf'', rec_level = 20, rec_msg = ''early''\<rparr>, QGet], Stopped)
   \<and> Handle \<lparr>rec_name = ''ocrmypdf'', rec_level = 20, rec_msg = ''late''\<rparr>
        \<notin> set (fst (log_listener (\<lambda>r. None)
        [GetRecord \<lparr>rec_name = ''ocrmypdf'', rec_level = 20, rec_msg = ''early''\<rparr>, GetNone,
         GetRecord \<lparr>rec_name = ''ocrmypdf'', rec_level = 20, rec_msg = ''late''\<rparr>]))"
  using single_sentinel_stops_reading
    [of "\<lparr>environ = Map.empty, dispatcher_level = 20, completion = [], interrupt_at = None\<rparr>"
        True 1 "()" PyNone "\<lambda>a. Returns a" "[1::nat]" PyNone "\<lambda>r. None"
        "[GetRecord \<lparr>rec_name = ''ocrmypdf'', rec_level = 20, rec_msg = ''early''\<rparr>]"
        "[GetRecord \<lparr>rec_name = ''ocrmypdf'', rec_level = 20, rec_msg = ''late''\<rparr>]"]
  by simp

section \<open>Collecting the results\<close>

lemma set_completion_order: "set (completion_order xs sched) = set xs"
  using mset_completion_order [of xs sched] by (metis set_mset_mset)

lemma next_outcomes_all_return:
  "interrupt_at e = None \<Longrightarrow>
     next_outcomes e (\<lambda>a. Returns (g a)) args = map Returns (map g (completion_order args (completion e)))"
  by (simp add: next_outcomes_def imap_unordered_def)

lemma observed_trace_all_return:
  "observed ([ListenerStart, PbarOpen, PoolCreate ut mw] @ concat (map (result_events tf) rs)
             @ [PutSentinel, PoolClose, PoolJoin, PbarClose, ListenerJoin]) = rs"
  by (simp add: observed_append observed_result_events)

lemma finished_trace_all_return:
  "finished ([ListenerStart, PbarOpen, PoolCreate ut mw] @ concat (map (result_events tf) rs)
             @ [PutSentinel, PoolClose, PoolJoin, PbarClose, ListenerJoin]) = (if truthy tf then rs else [])"
  by (simp add: finished_append finished_result_events)

lemma ticks_trace_all_return:
  "ticks ([ListenerStart, PbarOpen, PoolCreate ut mw] @ concat (map (result_events tf) rs)
             @ [PutSentinel, PoolClose, PoolJoin, PbarClose, ListenerJoin]) = (if truthy tf then 0 else length rs)"
proof -
  have "ticks [ListenerStart, PbarOpen, PoolCreate ut mw] = 0"
    and "ticks [PutSentinel, PoolClose, PoolJoin, PbarClose, ListenerJoin] = 0"
    by (simp_all add: ticks_def)
  then show ?thesis
    by (simp only: ticks_append ticks_result_events) simp
qed

lemma exec_all_results:
  assumes "interrupt_at e = None"
      and "\<forall>a\<in>set task_arguments. callback_ok task_finished (g a)"
  shows "let r = exec_progress_pool e ut mw kw ti (\<lambda>a. Returns (g a)) task_arguments task_finished in
           outcome r = Returned
         \<and> length (observed (trace r)) = length task_arguments
         \<and> mset (observed (trace r)) = mset (map g task_arguments)
         \<and> finished (trace r) = (if truthy task_finished then observed (trace r) else [])
         \<and> ticks (trace r) = (if truthy task_finished then 0 else length task_arguments)
         \<and> trace r = [ListenerStart, PbarOpen, PoolCreate ut mw]
                       @ concat (map (result_events task_finished) (observed (trace r)))
                       @ [PutSentinel, PoolClose, PoolJoin, PbarClose, ListenerJoin]"
proof -
  define rs where "rs = map g (completion_order task_arguments (completion e))"
  define r where "r = exec_progress_pool e ut mw kw ti (\<lambda>a. Returns (g a)) task_arguments task_finished"
  have outs: "next_outcomes e (\<lambda>a. Returns (g a)) task_arguments = map Returns rs"
    unfolding rs_def using assms(1) by (rule next_outcomes_all_return)
  have ok: "\<forall>x\<in>set rs. callback_ok task_finished x"
    using assms(2) by (simp add: rs_def set_completion_order)
  have o: "outcome r = Returned"
    unfolding r_def using outs ok by (rule exec_all_return(1))
  have t: "trace r = [ListenerStart, PbarOpen, PoolCreate ut mw]
                       @ concat (map (result_events task_finished) rs)
                       @ [PutSentinel, PoolClose, PoolJoin, PbarClose, ListenerJoin]"
    unfolding r_def using outs ok by (rule exec_all_return(2))
  have obs: "observed (trace r) = rs"
    by (simp only: t observed_trace_all_return)
  have fin: "finished (trace r) = (if truthy task_finished then rs else [])"
    by (simp only: t finished_trace_all_return)
  have tick: "ticks (trace r) = (if truthy task_finished then 0 else length rs)"
    by (simp only: t ticks_trace_all_return)
  have len: "length rs = length task_arguments"
    by (simp add: rs_def length_completion_order)
  have ms: "mset rs = mset (map g task_arguments)"
    by (simp add: rs_def mset_completion_order)
  have "outcome r = Returned
         \<and> length (observed (trace r)) = length task_arguments
         \<and> mset (observed (trace r)) = mset (map g task_arguments)
         \<and> finished (trace r) = (if truthy task_finished then observed (trace r) else [])
         \<and> ticks (trace r) = (if truthy task_finished then 0 else length task_arguments)
         \<and> trace r = [ListenerStart, PbarOpen, PoolCreate ut mw]
                       @ concat (map (result_events task_finished) (observed (trace r)))
                       @ [PutSentinel, PoolClose, PoolJoin, PbarClose, ListenerJoin]"
    unfolding obs using o fin tick len ms t by simp
  then show ?thesis
    unfolding r_def Let_def .
qed

section \<open>Interrupts and task failures\<close>

lemma is_Exception_not_interrupt: "is_Exception x \<Longrightarrow> x \<noteq> KeyboardInterrupt"
  by (cases x) simp_all

text \<open>
  Claim C4. When a \<^verbatim>\<open>KeyboardInterrupt\<close> is raised in a call of
  \<^verbatim>\<open>results.next()\<close>, after the results \<open>rs\<close> have been received and dealt with,
  \<^verbatim>\<open>exec_progress_pool\<close> terminates the pool at once: the next call on the pool is
  \<^verbatim>\<open>pool.terminate()\<close>, no further result is pulled whatever is still pending, and
  after the teardown the interrupt is raised to the caller.
\<close>

theorem interrupt_terminates_pool:
  assumes "next_outcomes e task args = map Returns rs @ Raises KeyboardInterrupt # rest"
      and "\<forall>r\<in>set rs. callback_ok tf r"
  shows "outcome (exec_progress_pool e ut mw kw ti task args tf) = Raised KeyboardInterrupt
       \<and> trace (exec_progress_pool e ut mw kw ti task args tf) =
           [ListenerStart, PbarOpen, PoolCreate ut mw] @ concat (map (result_events tf) rs)
             @ [PoolTerminate, PutSentinel, PoolClose, PoolJoin, PbarClose]"
proof -
  have ne: "KeyboardInterrupt \<noteq> StopIteration" by simp
  have o: "outcome (exec_progress_pool e ut mw kw ti task args tf) = Raised KeyboardInterrupt"
    using assms ne by (rule exec_first_raise(1))
  have t: "trace (exec_progress_pool e ut mw kw ti task args tf) =
           [ListenerStart, PbarOpen, PoolCreate ut mw] @ concat (map (result_events tf) rs)
             @ on_exception e KeyboardInterrupt @ [PutSentinel, PoolClose, PoolJoin, PbarClose]"
    using assms ne by (rule exec_first_raise(2))
  have "on_exception e KeyboardInterrupt = ([PoolTerminate] :: 'a event list)"
    by (simp add: on_exception_def)
  with o t show ?thesis by simp
qed

theorem interrupt_terminates_pool_witness:
  "outcome (exec_progress_pool \<lparr>environ = Map.empty, dispatcher_level = 20, completion = [2], interrupt_at = Some 1\<rparr>
              False 2 () PyNone (\<lambda>a. Returns a) [10::nat, 20, 30] PyNone) = Raised KeyboardInterrupt
   \<and> trace (exec_progress_pool \<lparr>environ = Map.empty, dispatcher_level = 20, completion = [2], interrupt_at = Some 1\<rparr>
              False 2 () PyNone (\<lambda>a. Returns a) [10::nat, 20, 30] PyNone) =
         [ListenerStart, PbarOpen, PoolCreate False 2, NextResult 30, PbarUpdate,
          PoolTerminate, PutSentinel, PoolClose, PoolJoin, PbarClose]"
proof -
  have h1: "next_outcomes \<lparr>environ = Map.empty, dispatcher_level = 20, completion = [2], interrupt_at = Some 1\<rparr>
              (\<lambda>a. Returns a) [10::nat, 20, 30] = map Returns [30] @ Raises KeyboardInterrupt # []"
    by (simp add: next_outcomes_def imap_unordered_def)
  have h2: "\<forall>r\<in>set [30::nat]. callback_ok PyNone r"
    by simp
  from interrupt_terminates_pool [OF h1 h2, of False 2 "()" PyNone] show ?thesis
    by (simp add: result_events_def)
qed

text \<open>
  Claim C5, as amended. When a task raises an \<^verbatim>\<open>Exception\<close> (not an interrupt, and
  not \<^verbatim>\<open>StopIteration\<close>, which the loop takes for the end of the results),
  \<^verbatim>\<open>exec_progress_pool\<close> terminates the pool unless the environment variable
  \<^verbatim>\<open>PYTEST_CURRENT_TEST\<close> of the process is set to a non-empty string, and then raises
  that exception to the caller. The caller passes no policy: the environment decides.
\<close>

theorem task_failure_terminates_unless_pytest:
  assumes "next_outcomes e task args = map Returns rs @ Raises x # rest"
      and "\<forall>r\<in>set rs. callback_ok tf r"
      and "is_Exception x"
      and "x \<noteq> StopIteration"
  shows "outcome (exec_progress_pool e ut mw kw ti task args tf) = Raised x
       \<and> trace (exec_progress_pool e ut mw kw ti task args tf) =
           [ListenerStart, PbarOpen, PoolCreate ut mw] @ concat (map (result_events tf) rs)
             @ (if environ_get (environ e) ''PYTEST_CURRENT_TEST'' '''' = '''' then [PoolTerminate] else [])
             @ [PutSentinel, PoolClose, PoolJoin, PbarClose]"
proof -
  have o: "outcome (exec_progress_pool e ut mw kw ti task args tf) = Raised x"
    using assms(1,2,4) by (rule exec_first_raise(1))
  have t: "trace (exec_progress_pool e ut mw kw ti task args tf) =
           [ListenerStart, PbarOpen, PoolCreate ut mw] @ concat (map (result_events tf) rs)
             @ on_exception e x @ [PutSentinel, PoolClose, PoolJoin, PbarClose]"
    using assms(1,2,4) by (rule exec_first_raise(2))
  have "on_exception e x =
          ((if environ_get (environ e) ''PYTEST_CURRENT_TEST'' '''' = '''' then [PoolTerminate] else []) :: 'a event list)"
    using assms(3) is_Exception_not_interrupt [OF assms(3)] by (simp add: on_exception_def)
  with o t show ?thesis by simp
qed

theorem task_failure_terminates_unless_pytest_witness:
  "outcome (exec_progress_pool \<lparr>environ = [''PYTEST_CURRENT_TEST'' \<mapsto> ''tests/test_main.py::test_x (call)''],
                                 dispatcher_level = 20, completion = [], interrupt_at = None\<rparr>
              False 2 () PyNone (\<lambda>a. if a = (20::nat) then Raises (InputFileError ''unreadable'') else Returns a)
              [10, 20, 30] PyNone) = Raised (InputFileError ''unreadable'')
   \<and> trace (exec_progress_pool \<lparr>environ = [''PYTEST_CURRENT_TEST'' \<mapsto> ''tests/test_main.py::test_x (call)''],
                                 dispatcher_level = 20, completion = [], interrupt_at = None\<rparr>
              False 2 () PyNone (\<lambda>a. if a = (20::nat) then Raises (InputFileError ''unreadable'') else Returns a)
              [10, 20, 30] PyNone) =
         [ListenerStart, PbarOpen, PoolCreate False 2, NextResult 10, PbarUpdate,
          PutSentinel, PoolClose, PoolJoin, PbarClose]"
proof -
  have h1: "next_outcomes \<lparr>environ = [''PYTEST_CURRENT_TEST'' \<mapsto> ''tests/test_main.py::test_x (call)''],
                                 dispatcher_level = 20, completion = [], interrupt_at = None\<rparr>
              (\<lambda>a. if a = (20::nat) then Raises (InputFileError ''unreadable'') else Returns a) [10, 20, 30]
            = map Returns [10] @ Raises (InputFileError ''unreadable'') # [Returns 30]"
    by (simp add: next_outcomes_def imap_unordered_def)
  have h2: "\<forall>r\<in>set [10::nat]. callback_ok PyNone r"
    by simp
  have h3: "is_Exception (InputFileError ''unreadable'')"
    by simp
  have h4: "InputFileError ''unreadable'' \<noteq> StopIteration"
    by simp
  from task_failure_terminates_unless_pytest [OF h1 h2 h3 h4, of False 2 "()" PyNone] show ?thesis
    by (simp add: result_events_def environ_get_def)
qed

text \<open>
  The claim as written lets only a policy that the caller passes in decide. Two calls with
  the same arguments, the second task failing in both, differ in whether the pool is
  terminated, because the environment of the process differs.
\<close>

theorem termination_depends_on_environment:
  "PoolTerminate \<in> set (trace (exec_progress_pool
       \<lparr>environ = Map.empty, dispatcher_level = 20, completion = [], interrupt_at = None\<rparr>
       False 2 () PyNone (\<lambda>a. if a = (20::nat) then Raises (InputFileError ''unreadable'') else Returns a)
       [10, 20, 30] PyNone))
   \<and> PoolTerminate \<notin> set (trace (exec_progress_pool
       \<lparr>environ = [''PYTEST_CURRENT_TEST'' \<mapsto> ''tests/test_main.py::test_x (call)''],
        dispatcher_level = 20, completion = [], interrupt_at = None\<rparr>
       False 2 () PyNone (\<lambda>a. if a = (20::nat) then Raises (InputFileError ''unreadable'') else Returns a)
       [10, 20, 30] PyNone))"
  by (simp add: exec_trace next_outcomes_def imap_unordered_def on_exception_def environ_get_def)

section \<open>The order of sentinel and join\<close>

lemma no_join_after: "PoolJoin \<notin> set (PbarClose # (if b then [ListenerJoin] else ([] :: 'r event list)))"
  by simp

lemma no_sentinel_after: "PutSentinel \<notin> set (PbarClose # (if b then [ListenerJoin] else ([] :: 'r event list)))"
  by simp

text \<open>
  Claim C9. In the teardown of \<^verbatim>\<open>exec_progress_pool\<close> the sentinel is put on the
  log queue before the pool is joined, on every exit path: the trace holds the sentinel,
  \<^verbatim>\<open>pool.close()\<close> and \<^verbatim>\<open>pool.join()\<close> next to each other in this order, with no
  other join and no later sentinel. So a worker, which lives until the join, can still put
  a record on the queue behind the sentinel, and then the listener has stopped and the
  record is not handled.
\<close>

theorem sentinel_before_pool_join:
  "(\<exists>pre post. trace (exec_progress_pool e ut mw kw ti task args (tf :: ('r \<Rightarrow> exn option) optional_callable)) =
                 pre @ PutSentinel # PoolClose # PoolJoin # post
               \<and> PoolJoin \<notin> set pre \<and> PoolJoin \<notin> set post \<and> PutSentinel \<notin> set post)
   \<and> snd (log_listener sink (GetNone # GetRecord late # others)) = Stopped
   \<and> Handle late \<notin> set (fst (log_listener sink (GetNone # GetRecord late # others)))"
proof -
  define loop :: "'r event list" where "loop = fst (result_loop tf (next_outcomes e task args))"
  define handler :: "'r event list" where
    "handler = (case snd (result_loop tf (next_outcomes e task args) :: 'r event list \<times> exn option) of None \<Rightarrow> [] | Some x \<Rightarrow> on_exception e x)"
  define pre where "pre = [ListenerStart, PbarOpen, PoolCreate ut mw] @ loop @ handler"
  define post :: "'r event list" where
    "post = PbarClose # (if outcome (exec_progress_pool e ut mw kw ti task args tf) = Returned then [ListenerJoin] else [])"
  have t: "trace (exec_progress_pool e ut mw kw ti task args tf) = pre @ PutSentinel # PoolClose # PoolJoin # post"
    unfolding pre_def post_def loop_def handler_def
    by (simp add: exec_trace exec_outcome split: option.splits)
  have l: "\<forall>ev\<in>set loop. loop_event ev"
    unfolding loop_def by (rule loop_events_only)
  have h: "handler = [] \<or> handler = [PoolTerminate]"
    unfolding handler_def by (simp add: on_exception_def split: option.splits)
  have "PutSentinel \<notin> set pre \<and> PoolClose \<notin> set pre \<and> PoolJoin \<notin> set pre
         \<and> ListenerJoin \<notin> set pre"
    unfolding pre_def using l h by (rule prefix_clean)
  then have n1: "PoolJoin \<notin> set pre" by simp
  have n2: "PoolJoin \<notin> set post" unfolding post_def by (rule no_join_after)
  have n3: "PutSentinel \<notin> set post" unfolding post_def by (rule no_sentinel_after)
  have order: "\<exists>pre post. trace (exec_progress_pool e ut mw kw ti task args tf) =
                 pre @ PutSentinel # PoolClose # PoolJoin # post
               \<and> PoolJoin \<notin> set pre \<and> PoolJoin \<notin> set post \<and> PutSentinel \<notin> set post"
    using t n1 n2 n3 by (intro exI [of _ pre] exI [of _ post] conjI)
  have stop: "snd (log_listener sink (GetNone # GetRecord late # others)) = Stopped"
    by simp
  have drop: "Handle late \<notin> set (fst (log_listener sink (GetNone # GetRecord late # others)))"
    by simp
  from order stop drop show ?thesis by (intro conjI)
qed

theorem sentinel_before_pool_join_witness:
  "(\<exists>pre post. trace (exec_progress_pool \<lparr>environ = Map.empty, dispatcher_level = 20, completion = [], interrupt_at = None\<rparr>
                        False 2 () PyNone (\<lambda>a. Returns a) [10::nat, 20] PyNone) =
                 pre @ PutSentinel # PoolClose # PoolJoin # post
               \<and> PoolJoin \<notin> set pre \<and> PoolJoin \<notin> set post \<and> PutSentinel \<notin> set post)
   \<and> snd (log_listener (\<lambda>r. None)
           [GetNone, GetRecord \<lparr>rec_name = ''ocrmypdf'', rec_level = 20, rec_msg = ''late''\<rparr>]) = Stopped
   \<and> Handle \<lparr>rec_name = ''ocrmypdf'', rec_level = 20, rec_msg = ''late''\<rparr>
        \<notin> set (fst (log_listener (\<lambda>r. None)
           [GetNone, GetRecord \<lparr>rec_name = ''ocrmypdf'', rec_level = 20, rec_msg = ''late''\<rparr>]))"
  by (rule sentinel_before_pool_join)

section \<open>What the initialisers do to a worker\<close>

lemma process_init_eq:
  "process_init has_sigbus q user_init loglevel w =
     user_init (w\<lparr>sig_disp := (if has_sigbus
                                then (sig_disp w)(SIGINT := SIG_IGN, SIGBUS := Handler process_sigbus)
                                else (sig_disp w)(SIGINT := SIG_IGN)),
                 root_level := loglevel,
                 root_handlers := [QueueHandler q]\<rparr>)"
  by (simp add: process_init_def signal_signal_def addHandler_def Let_def)

lemma thread_init_eq:
  "thread_init has_sigbus q user_init loglevel w =
     user_init (if has_sigbus then w\<lparr>sig_blocked := insert SIGBUS (sig_blocked w)\<rparr> else w)"
  by (simp add: thread_init_def pthread_sigmask_block_def Let_def)

lemma start_worker_eq:
  "start_worker has_sigbus (exec_progress_pool e ut mw kw ti task args tf) w =
     (if ut then thread_init has_sigbus QueueQueue (case ti of PyCallable True f \<Rightarrow> f | _ \<Rightarrow> noop) (dispatcher_level e) w
      else process_init has_sigbus MultiprocessingQueue (case ti of PyCallable True f \<Rightarrow> f | _ \<Rightarrow> noop) (dispatcher_level e) w)"
  by (simp add: start_worker_def exec_initializer exec_initargs)

text \<open>
  Claim C6, as amended. In process mode the pool is created with \<^verbatim>\<open>process_init\<close>,
  the multiprocessing queue, the per-worker callback and the level of the dispatcher's
  root logger. Run in a worker, \<^verbatim>\<open>process_init\<close> sets \<^verbatim>\<open>SIGINT\<close> to be ignored;
  on a platform that has \<^verbatim>\<open>SIGBUS\<close> it installs \<^verbatim>\<open>process_sigbus\<close> as the handler
  of that signal, so that the signal raises \<^verbatim>\<open>InputFileError\<close> in the worker, and on a
  platform without it leaves that disposition as it was; it sets the level of the root
  logger to the dispatcher's and replaces the handlers of the root logger by the single
  queue handler of the log queue; and then it calls the per-worker callback on the worker
  so prepared.
\<close>

theorem process_init_prepares_worker:
  "let w' = w\<lparr>sig_disp := (if has_sigbus
                            then (sig_disp w)(SIGINT := SIG_IGN, SIGBUS := Handler process_sigbus)
                            else (sig_disp w)(SIGINT := SIG_IGN)),
               root_level := dispatcher_level e,
               root_handlers := [QueueHandler MultiprocessingQueue]\<rparr>;
       user_init = (case ti of PyCallable True f \<Rightarrow> f | _ \<Rightarrow> noop)
   in start_worker has_sigbus (exec_progress_pool e False mw kw ti task args tf) w = user_init w'
    \<and> pool_initializer (exec_progress_pool e False mw kw ti task args tf) = process_init
    \<and> pool_initargs (exec_progress_pool e False mw kw ti task args tf)
        = (MultiprocessingQueue, user_init, dispatcher_level e)
    \<and> sig_disp w' SIGINT = SIG_IGN
    \<and> (SIGINT \<notin> sig_blocked w \<longrightarrow> deliver w' SIGINT = Ignored)
    \<and> (has_sigbus \<longrightarrow> sig_disp w' SIGBUS = Handler process_sigbus)
    \<and> (has_sigbus \<and> SIGBUS \<notin> sig_blocked w \<longrightarrow>
         deliver w' SIGBUS = RaisedInWorker (InputFileError ''A worker process lost access to an input file''))
    \<and> (\<not> has_sigbus \<longrightarrow> sig_disp w' SIGBUS = sig_disp w SIGBUS)
    \<and> root_handlers w' = [QueueHandler MultiprocessingQueue]
    \<and> root_level w' = dispatcher_level e"
proof -
  have a: "start_worker has_sigbus (exec_progress_pool e False mw kw ti task args tf) w =
        (case ti of PyCallable True f \<Rightarrow> f | _ \<Rightarrow> noop)
          (w\<lparr>sig_disp := (if has_sigbus
                            then (sig_disp w)(SIGINT := SIG_IGN, SIGBUS := Handler process_sigbus)
                            else (sig_disp w)(SIGINT := SIG_IGN)),
               root_level := dispatcher_level e,
               root_handlers := [QueueHandler MultiprocessingQueue]\<rparr>)"
    by (simp only: start_worker_eq if_False process_init_eq)
  have b: "pool_initializer (exec_progress_pool e False mw kw ti task args tf) = process_init"
    by (simp add: exec_initializer)
  have c: "pool_initargs (exec_progress_pool e False mw kw ti task args tf)
        = (MultiprocessingQueue, (case ti of PyCallable True f \<Rightarrow> f | _ \<Rightarrow> noop), dispatcher_level e)"
    by (simp add: exec_initargs)
  show ?thesis
    unfolding Let_def using a b c
    by (simp add: deliver_def process_sigbus_def)
qed

theorem process_init_prepares_worker_witness:
  "start_worker True
     (exec_progress_pool \<lparr>environ = Map.empty, dispatcher_level = 20, completion = [], interrupt_at = None\<rparr>
        False 2 () PyNone (\<lambda>a. Returns a) [10::nat, 20] PyNone)
     \<lparr>sig_disp = (\<lambda>s. SIG_DFL), sig_blocked = {}, root_level = 30, root_handlers = [OtherHandler ''stderr'']\<rparr>
   = Inr \<lparr>sig_disp = (\<lambda>s. SIG_DFL)(SIGINT := SIG_IGN, SIGBUS := Handler process_sigbus), sig_blocked = {},
          root_level = 20, root_handlers = [QueueHandler MultiprocessingQueue]\<rparr>
   \<and> deliver \<lparr>sig_disp = (\<lambda>s. SIG_DFL)(SIGINT := SIG_IGN, SIGBUS := Handler process_sigbus), sig_blocked = {},
          root_level = 20, root_handlers = [QueueHandler MultiprocessingQueue]\<rparr> SIGBUS
       = RaisedInWorker (InputFileError ''A worker process lost access to an input file'')
   \<and> deliver \<lparr>sig_disp = (\<lambda>s. SIG_DFL)(SIGINT := SIG_IGN, SIGBUS := Handler process_sigbus), sig_blocked = {},
          root_level = 20, root_handlers = [QueueHandler MultiprocessingQueue]\<rparr> SIGINT
       = Ignored"
  using process_init_prepares_worker
    [where has_sigbus = True
       and e = "\<lparr>environ = Map.empty, dispatcher_level = 20, completion = [], interrupt_at = None\<rparr>"
       and mw = 2 and kw = "()" and ti = PyNone and task = "\<lambda>a. Returns a" and args = "[10::nat, 20]"
       and tf = PyNone
       and w = "\<lparr>sig_disp = (\<lambda>s. SIG_DFL), sig_blocked = {}, root_level = 30, root_handlers = [OtherHandler ''stderr'']\<rparr>"]
  by (simp add: Let_def noop_def)

text \<open>
  The claim as written has the fault handler installed in every process worker. Where
  \<^verbatim>\<open>hasattr(signal, 'SIGBUS')\<close> is false, \<^verbatim>\<open>process_init\<close> installs none: the
  disposition of \<^verbatim>\<open>SIGBUS\<close> stays the default.
\<close>

theorem process_init_without_sigbus:
  "process_init False MultiprocessingQueue noop 20
     \<lparr>sig_disp = (\<lambda>s. SIG_DFL), sig_blocked = {}, root_level = 30, root_handlers = [OtherHandler ''stderr'']\<rparr>
   = Inr \<lparr>sig_disp = (\<lambda>s. SIG_DFL)(SIGINT := SIG_IGN), sig_blocked = {},
          root_level = 20, root_handlers = [QueueHandler MultiprocessingQueue]\<rparr>
   \<and> ((\<lambda>s. SIG_DFL)(SIGINT := SIG_IGN)) SIGBUS = SIG_DFL
   \<and> deliver \<lparr>sig_disp = (\<lambda>s. SIG_DFL)(SIGINT := SIG_IGN), sig_blocked = {},
          root_level = 20, root_handlers = [QueueHandler MultiprocessingQueue]\<rparr> SIGBUS = DefaultAction"
  by (simp add: process_init_def signal_signal_def addHandler_def Let_def noop_def deliver_def)

text \<open>
  Claim C7, as amended. In thread mode the pool is created with \<^verbatim>\<open>thread_init\<close>, the
  thread queue, the per-worker callback and the dispatcher's level. Run in a worker thread,
  \<^verbatim>\<open>thread_init\<close> blocks \<^verbatim>\<open>SIGBUS\<close> for that thread on a platform that has the
  signal, so that the signal is not delivered to it, and on a platform without the signal
  changes nothing; it leaves the signal dispositions and the level and handlers of the root
  logger as they are; and then it calls the per-worker callback.
\<close>

theorem thread_init_prepares_worker:
  "let w' = (if has_sigbus then w\<lparr>sig_blocked := insert SIGBUS (sig_blocked w)\<rparr> else w);
       user_init = (case ti of PyCallable True f \<Rightarrow> f | _ \<Rightarrow> noop)
   in start_worker has_sigbus (exec_progress_pool e True mw kw ti task args tf) w = user_init w'
    \<and> pool_initializer (exec_progress_pool e True mw kw ti task args tf) = thread_init
    \<and> pool_initargs (exec_progress_pool e True mw kw ti task args tf)
        = (QueueQueue, user_init, dispatcher_level e)
    \<and> (has_sigbus \<longrightarrow> SIGBUS \<in> sig_blocked w' \<and> deliver w' SIGBUS = NotDelivered)
    \<and> (\<not> has_sigbus \<longrightarrow> w' = w)
    \<and> sig_disp w' = sig_disp w
    \<and> root_handlers w' = root_handlers w
    \<and> root_level w' = root_level w"
proof -
  have a: "start_worker has_sigbus (exec_progress_pool e True mw kw ti task args tf) w =
        (case ti of PyCallable True f \<Rightarrow> f | _ \<Rightarrow> noop)
          (if has_sigbus then w\<lparr>sig_blocked := insert SIGBUS (sig_blocked w)\<rparr> else w)"
    by (simp only: start_worker_eq if_True thread_init_eq)
  have b: "pool_initializer (exec_progress_pool e True mw kw ti task args tf) = thread_init"
    by (simp add: exec_initializer)
  have c: "pool_initargs (exec_progress_pool e True mw kw ti task args tf)
        = (QueueQueue, (case ti of PyCallable True f \<Rightarrow> f | _ \<Rightarrow> noop), dispatcher_level e)"
    by (simp add: exec_initargs)
  show ?thesis
    unfolding Let_def using a b c
    by (simp add: deliver_def)
qed

theorem thread_init_prepares_worker_witness:
  "start_worker True
     (exec_progress_pool \<lparr>environ = Map.empty, dispatcher_level = 20, completion = [], interrupt_at = None\<rparr>
        True 2 () PyNone (\<lambda>a. Returns a) [10::nat, 20] PyNone)
     \<lparr>sig_disp = (\<lambda>s. SIG_DFL), sig_blocked = {}, root_level = 30, root_handlers = [OtherHandler ''stderr'']\<rparr>
   = Inr \<lparr>sig_disp = (\<lambda>s. SIG_DFL), sig_blocked = {SIGBUS},
          root_level = 30, root_handlers = [OtherHandler ''stderr'']\<rparr>
   \<and> deliver \<lparr>sig_disp = (\<lambda>s. SIG_DFL), sig_blocked = {SIGBUS},
          root_level = 30, root_handlers = [OtherHandler ''stderr'' :: log_queue log_handler]\<rparr> SIGBUS = NotDelivered"
  using thread_init_prepares_worker
    [where has_sigbus = True
       and e = "\<lparr>environ = Map.empty, dispatcher_level = 20, completion = [], interrupt_at = None\<rparr>"
       and mw = 2 and kw = "()" and ti = PyNone and task = "\<lambda>a. Returns a" and args = "[10::nat, 20]"
       and tf = PyNone
       and w = "\<lparr>sig_disp = (\<lambda>s. SIG_DFL), sig_blocked = {}, root_level = 30, root_handlers = [OtherHandler ''stderr'']\<rparr>"]
  by (simp add: Let_def noop_def)

text \<open>
  The claim as written has \<^verbatim>\<open>SIGBUS\<close> blocked in every worker thread. Where
  \<^verbatim>\<open>hasattr(signal, 'SIGBUS')\<close> is false, \<^verbatim>\<open>thread_init\<close> blocks nothing: the
  worker is passed to the callback unchanged.
\<close>

theorem thread_init_without_sigbus:
  "thread_init False QueueQueue noop 20
     \<lparr>sig_disp = (\<lambda>s. SIG_DFL), sig_blocked = {}, root_level = 30, root_handlers = [OtherHandler ''stderr'']\<rparr>
   = Inr \<lparr>sig_disp = (\<lambda>s. SIG_DFL), sig_blocked = {}, root_level = 30, root_handlers = [OtherHandler ''stderr'']\<rparr>
   \<and> SIGBUS \<notin> sig_blocked \<lparr>sig_disp = (\<lambda>s. SIG_DFL), sig_blocked = {}, root_level = 30,
                               root_handlers = [OtherHandler ''stderr'' :: log_queue log_handler]\<rparr>
   \<and> deliver \<lparr>sig_disp = (\<lambda>s. SIG_DFL), sig_blocked = {}, root_level = 30,
               root_handlers = [OtherHandler ''stderr'' :: log_queue log_handler]\<rparr> SIGBUS = DefaultAction"
  by (simp add: thread_init_def Let_def noop_def deliver_def)

section \<open>The whole call: agreement with the call that meets no obstacle\<close>

lemma call_loop_gives:
  "call_loop tf (map Gives outs) =
     (fst (result_loop tf outs), case snd (result_loop tf outs) of None \<Rightarrow> Ended | Some x \<Rightarrow> Escaped x)"
  by (induction tf outs rule: result_loop.induct)
     (auto split: optional_callable.splits bool.splits option.splits prod.splits)

lemma set_imap_unordered: "set (imap_unordered task args sched) = task ` set args"
  by (simp add: imap_unordered_def set_completion_order)

lemma next_calls_all_arrive:
  assumes "\<forall>a\<in>set args. deliverable (task a)"
  shows "next_calls True e task args = map Gives (next_outcomes e task args)"
proof -
  have "\<forall>x\<in>set (imap_unordered task args (completion e)). deliverable x"
    using assms by (simp add: set_imap_unordered)
  then have "filter deliverable (imap_unordered task args (completion e)) = imap_unordered task args (completion e)"
    by (simp add: filter_id_conv)
  then show ?thesis
    by (simp add: next_calls_def next_outcomes_def Let_def)
qed

lemma exec_call_agrees:
  assumes "Pool_new p ut mw ti = None"
      and "workers_start p (exec_progress_pool e ut mw kw ti task args tf)"
      and "\<forall>a\<in>set args. deliverable (task a)"
  shows "exec_progress_pool_call p e ut mw kw ti task args tf =
           (trace (exec_progress_pool e ut mw kw ti task args tf),
            Leaves (outcome (exec_progress_pool e ut mw kw ti task args tf)))"
proof -
  have calls: "next_calls True e task args = map Gives (next_outcomes e task args)"
    using assms(3) by (rule next_calls_all_arrive)
  show ?thesis
    using assms(1,2)
    by (simp add: exec_progress_pool_call_def calls call_loop_gives exec_trace exec_outcome
             split: option.splits)
qed

section \<open>Collecting the results: the whole call\<close>

text \<open>
  Claim C2, as amended. Let the pool be constructed (at least one worker, and for a
  process pool under spawn or forkserver a per-worker callback from the caller), let the
  workers get through their initialiser, let the tasks be a function \<open>g\<close> that returns
  for every argument, let no interrupt occur, and let the completion callback, when there
  is one, not raise on the results. Then \<^verbatim>\<open>exec_progress_pool\<close> returns normally; it
  receives exactly as many results as there are task arguments, namely the results of the
  arguments in some order; with a completion callback (one that tests true) the callback
  is called once on each received result and the dispatcher does not advance the progress
  bar, and without one the progress bar is advanced once per result. In the trace every
  received result is followed at once by its callback or its update, and the teardown
  follows the last one.
\<close>

theorem all_results_observed_when_nothing_fails:
  assumes "Pool_new p ut mw ti = None"
      and "workers_start p (exec_progress_pool e ut mw kw ti (\<lambda>a. Returns (g a)) task_arguments task_finished)"
      and "interrupt_at e = None"
      and "\<forall>a\<in>set task_arguments. callback_ok task_finished (g a)"
  shows "let c = exec_progress_pool_call p e ut mw kw ti (\<lambda>a. Returns (g a)) task_arguments task_finished in
           snd c = Leaves Returned
         \<and> length (observed (fst c)) = length task_arguments
         \<and> mset (observed (fst c)) = mset (map g task_arguments)
         \<and> finished (fst c) = (if truthy task_finished then observed (fst c) else [])
         \<and> ticks (fst c) = (if truthy task_finished then 0 else length task_arguments)
         \<and> fst c = [ListenerStart, PbarOpen, PoolCreate ut mw]
                       @ concat (map (result_events task_finished) (observed (fst c)))
                       @ [PutSentinel, PoolClose, PoolJoin, PbarClose, ListenerJoin]"
proof -
  define r where "r = exec_progress_pool e ut mw kw ti (\<lambda>a. Returns (g a)) task_arguments task_finished"
  have d: "\<forall>a\<in>set task_arguments. deliverable (Returns (g a))"
    by simp
  have c: "exec_progress_pool_call p e ut mw kw ti (\<lambda>a. Returns (g a)) task_arguments task_finished
            = (trace r, Leaves (outcome r))"
    unfolding r_def using assms(1,2) d by (rule exec_call_agrees)
  have facts: "outcome r = Returned
         \<and> length (observed (trace r)) = length task_arguments
         \<and> mset (observed (trace r)) = mset (map g task_arguments)
         \<and> finished (trace r) = (if truthy task_finished then observed (trace r) else [])
         \<and> ticks (trace r) = (if truthy task_finished then 0 else length task_arguments)
         \<and> trace r = [ListenerStart, PbarOpen, PoolCreate ut mw]
                       @ concat (map (result_events task_finished) (observed (trace r)))
                       @ [PutSentinel, PoolClose, PoolJoin, PbarClose, ListenerJoin]"
    using exec_all_results [OF assms(3,4), of ut mw kw ti] unfolding r_def Let_def .
  show ?thesis
    unfolding Let_def c fst_conv snd_conv using facts by simp
qed

theorem all_results_observed_when_nothing_fails_witness:
  "let c = exec_progress_pool_call
             \<lparr>sigbus_defined = True, start_method = Fork,
              fresh_worker = \<lparr>sig_disp = (\<lambda>s. SIG_DFL), sig_blocked = {}, root_level = 30, root_handlers = []\<rparr>\<rparr>
             \<lparr>environ = Map.empty, dispatcher_level = 20, completion = [1, 0], interrupt_at = None\<rparr>
             False 2 () PyNone (\<lambda>a. Returns (a + 1)) [10::nat, 20, 30] (PyCallable True (\<lambda>r. None)) in
           snd c = Leaves Returned
         \<and> length (observed (fst c)) = 3
         \<and> mset (observed (fst c)) = mset [11, 21, 31]
         \<and> finished (fst c) = observed (fst c)
         \<and> ticks (fst c) = 0"
proof -
  let ?p = "\<lparr>sigbus_defined = True, start_method = Fork,
              fresh_worker = \<lparr>sig_disp = (\<lambda>s. SIG_DFL), sig_blocked = {}, root_level = 30, root_handlers = []\<rparr>\<rparr>"
  let ?e = "\<lparr>environ = Map.empty, dispatcher_level = 20, completion = [1, 0], interrupt_at = None\<rparr>"
  have h1: "Pool_new ?p False 2 PyNone = None"
    by (simp add: Pool_new_def)
  have h2: "workers_start ?p (exec_progress_pool ?e False 2 () PyNone (\<lambda>a. Returns (a + 1)) [10::nat, 20, 30]
              (PyCallable True (\<lambda>r. None)))"
    by (simp add: workers_start_def start_worker_eq process_init_eq noop_def)
  have h3: "interrupt_at ?e = None"
    by simp
  have h4: "\<forall>a\<in>set [10::nat, 20, 30]. callback_ok (PyCallable True (\<lambda>r. None)) (a + 1)"
    by simp
  from all_results_observed_when_nothing_fails [OF h1 h2 h3 h4] show ?thesis
    by (simp add: Let_def)
qed

text \<open>
  The claim as written asks only that no task fails and no interrupt occurs. With two
  returning tasks and no interrupt: a completion callback that raises on the first result
  makes the call raise after one result; one that raises \<^verbatim>\<open>StopIteration\<close> makes the
  call return after one result; a per-worker callback that raises leaves the call waiting
  for results that never come; and a pool of no workers is refused by the constructor.
\<close>

theorem results_lost_when_a_callback_raises:
  "exec_progress_pool_call
     \<lparr>sigbus_defined = True, start_method = Fork,
      fresh_worker = \<lparr>sig_disp = (\<lambda>s. SIG_DFL), sig_blocked = {}, root_level = 30, root_handlers = []\<rparr>\<rparr>
     \<lparr>environ = Map.empty, dispatcher_level = 20, completion = [], interrupt_at = None\<rparr>
     True 2 () PyNone (\<lambda>a. Returns a) [10::nat, 20] (PyCallable True (\<lambda>r. Some (OtherException ''callback failed'')))
   = ([ListenerStart, PbarOpen, PoolCreate True 2, NextResult 10, TaskFinished 10,
       PoolTerminate, PutSentinel, PoolClose, PoolJoin, PbarClose],
      Leaves (Raised (OtherException ''callback failed'')))
   \<and> exec_progress_pool_call
     \<lparr>sigbus_defined = True, start_method = Fork,
      fresh_worker = \<lparr>sig_disp = (\<lambda>s. SIG_DFL), sig_blocked = {}, root_level = 30, root_handlers = []\<rparr>\<rparr>
     \<lparr>environ = Map.empty, dispatcher_level = 20, completion = [], interrupt_at = None\<rparr>
     True 2 () PyNone (\<lambda>a. Returns a) [10::nat, 20] (PyCallable True (\<lambda>r. Some StopIteration))
   = ([ListenerStart, PbarOpen, PoolCreate True 2, NextResult 10, TaskFinished 10,
       PutSentinel, PoolClose, PoolJoin, PbarClose, ListenerJoin],
      Leaves Returned)
   \<and> exec_progress_pool_call
     \<lparr>sigbus_defined = True, start_method = Fork,
      fresh_worker = \<lparr>sig_disp = (\<lambda>s. SIG_DFL), sig_blocked = {}, root_level = 30, root_handlers = []\<rparr>\<rparr>
     \<lparr>environ = Map.empty, dispatcher_level = 20, completion = [], interrupt_at = None\<rparr>
     True 2 () (PyCallable True (\<lambda>w. Inl (OtherException ''setup failed''))) (\<lambda>a. Returns a) [10::nat, 20] PyNone
   = ([ListenerStart, PbarOpen, PoolCreate True 2], Hangs)
   \<and> exec_progress_pool_call
     \<lparr>sigbus_defined = True, start_method = Fork,
      fresh_worker = \<lparr>sig_disp = (\<lambda>s. SIG_DFL), sig_blocked = {}, root_level = 30, root_handlers = []\<rparr>\<rparr>
     \<lparr>environ = Map.empty, dispatcher_level = 20, completion = [], interrupt_at = None\<rparr>
     True 0 () PyNone (\<lambda>a. Returns a) [10::nat, 20] PyNone
   = ([ListenerStart, PbarOpen, PbarClose],
      Leaves (Raised (OtherException ''ValueError: Number of processes must be at least 1'')))"
  by (simp add: exec_progress_pool_call_def Pool_new_def workers_start_def start_worker_eq
        thread_init_eq noop_def next_calls_def imap_unordered_def on_exception_def environ_get_def)

section \<open>The substituted callback and the start method\<close>

text \<open>
  Claim C10, where the code falls short of it. With no per-worker callback from the
  caller, \<^verbatim>\<open>exec_progress_pool\<close> passes its local function \<^verbatim>\<open>_noop\<close> to the pool.
  For a process pool under the spawn start method the constructor then raises
  \<^verbatim>\<open>AttributeError\<close>: no worker is initialised, and the call leaves with that
  exception, because the callback was missing. The same call in thread mode, and in
  process mode under fork, runs to its normal end.
\<close>

theorem missing_initializer_breaks_spawned_pool:
  "Pool_new
     \<lparr>sigbus_defined = True, start_method = Spawn,
      fresh_worker = \<lparr>sig_disp = (\<lambda>s. SIG_DFL), sig_blocked = {}, root_level = 30, root_handlers = []\<rparr>\<rparr>
     False 2 PyNone = Some AttributeError
   \<and> exec_progress_pool_call
     \<lparr>sigbus_defined = True, start_method = Spawn,
      fresh_worker = \<lparr>sig_disp = (\<lambda>s. SIG_DFL), sig_blocked = {}, root_level = 30, root_handlers = []\<rparr>\<rparr>
     \<lparr>environ = Map.empty, dispatcher_level = 20, completion = [], interrupt_at = None\<rparr>
     False 2 () PyNone (\<lambda>a. Returns a) [10::nat, 20] PyNone
   = ([ListenerStart, PbarOpen, PbarClose], Leaves (Raised AttributeError))
   \<and> exec_progress_pool_call
     \<lparr>sigbus_defined = True, start_method = Spawn,
      fresh_worker = \<lparr>sig_disp = (\<lambda>s. SIG_DFL), sig_blocked = {}, root_level = 30, root_handlers = []\<rparr>\<rparr>
     \<lparr>environ = Map.empty, dispatcher_level = 20, completion = [], interrupt_at = None\<rparr>
     True 2 () PyNone (\<lambda>a. Returns a) [10::nat, 20] PyNone
   = ([ListenerStart, PbarOpen, PoolCreate True 2, NextResult 10, PbarUpdate, NextResult 20, PbarUpdate,
       PutSentinel, PoolClose, PoolJoin, PbarClose, ListenerJoin],
      Leaves Returned)
   \<and> exec_progress_pool_call
     \<lparr>sigbus_defined = True, start_method = Fork,
      fresh_worker = \<lparr>sig_disp = (\<lambda>s. SIG_DFL), sig_blocked = {}, root_level = 30, root_handlers = []\<rparr>\<rparr>
     \<lparr>environ = Map.empty, dispatcher_level = 20, completion = [], interrupt_at = None\<rparr>
     False 2 () PyNone (\<lambda>a. Returns a) [10::nat, 20] PyNone
   = ([ListenerStart, PbarOpen, PoolCreate False 2, NextResult 10, PbarUpdate, NextResult 20, PbarUpdate,
       PutSentinel, PoolClose, PoolJoin, PbarClose, ListenerJoin],
      Leaves Returned)"
  by (simp add: exec_progress_pool_call_def Pool_new_def workers_start_def start_worker_eq
        thread_init_eq process_init_eq noop_def next_calls_def imap_unordered_def)

end
